theory Spec2Isabelle
  imports Complex_Main
begin

section \<open>Numbers\<close>

text \<open>
  The interpolation routines of \<^verbatim>\<open>sarracen/interpolate.py\<close> compute with numpy
  \<^verbatim>\<open>float64\<close> values. A value is modelled as a finite real number or one of the three
  special values of IEEE arithmetic. Finite arithmetic is exact here (no rounding, no
  overflow), and the two zeros are not told apart: a nonzero number divided by zero is
  the infinity with the sign of the numerator. Comparisons with \<open>NaN\<close> are false, as
  they are in Python.
\<close>

datatype fl = Fin real | PInf | NInf | NaN

instantiation fl :: "{plus, minus, uminus, times, inverse, ord, abs}"
begin

fun plus_fl :: "fl \<Rightarrow> fl \<Rightarrow> fl" where
  "plus_fl NaN b = NaN"
| "plus_fl a NaN = NaN"
| "plus_fl (Fin a) (Fin b) = Fin (a + b)"
| "plus_fl PInf NInf = NaN"
| "plus_fl NInf PInf = NaN"
| "plus_fl PInf b = PInf"
| "plus_fl a PInf = PInf"
| "plus_fl NInf b = NInf"
| "plus_fl a NInf = NInf"

fun uminus_fl :: "fl \<Rightarrow> fl" where
  "uminus_fl (Fin a) = Fin (- a)"
| "uminus_fl PInf = NInf"
| "uminus_fl NInf = PInf"
| "uminus_fl NaN = NaN"

definition minus_fl :: "fl \<Rightarrow> fl \<Rightarrow> fl" where
  "minus_fl a b = a + (- b)"

fun times_fl :: "fl \<Rightarrow> fl \<Rightarrow> fl" where
  "times_fl NaN b = NaN"
| "times_fl a NaN = NaN"
| "times_fl (Fin a) (Fin b) = Fin (a * b)"
| "times_fl PInf (Fin b) = (if b = 0 then NaN else if 0 < b then PInf else NInf)"
| "times_fl NInf (Fin b) = (if b = 0 then NaN else if 0 < b then NInf else PInf)"
| "times_fl (Fin a) PInf = (if a = 0 then NaN else if 0 < a then PInf else NInf)"
| "times_fl (Fin a) NInf = (if a = 0 then NaN else if 0 < a then NInf else PInf)"
| "times_fl PInf PInf = PInf"
| "times_fl NInf NInf = PInf"
| "times_fl PInf NInf = NInf"
| "times_fl NInf PInf = NInf"

fun divide_fl :: "fl \<Rightarrow> fl \<Rightarrow> fl" where
  "divide_fl NaN b = NaN"
| "divide_fl a NaN = NaN"
| "divide_fl (Fin a) (Fin b) =
     (if b \<noteq> 0 then Fin (a / b) else if a = 0 then NaN else if 0 < a then PInf else NInf)"
| "divide_fl (Fin a) PInf = Fin 0"
| "divide_fl (Fin a) NInf = Fin 0"
| "divide_fl PInf (Fin b) = (if 0 \<le> b then PInf else NInf)"
| "divide_fl NInf (Fin b) = (if 0 \<le> b then NInf else PInf)"
| "divide_fl a b = NaN"

definition inverse_fl :: "fl \<Rightarrow> fl" where
  "inverse_fl a = Fin 1 div a"

fun abs_fl :: "fl \<Rightarrow> fl" where
  "abs_fl (Fin a) = Fin \<bar>a\<bar>"
| "abs_fl PInf = PInf"
| "abs_fl NInf = PInf"
| "abs_fl NaN = NaN"

fun less_eq_fl :: "fl \<Rightarrow> fl \<Rightarrow> bool" where
  "less_eq_fl NaN b = False"
| "less_eq_fl a NaN = False"
| "less_eq_fl (Fin a) (Fin b) = (a \<le> b)"
| "less_eq_fl NInf b = True"
| "less_eq_fl a PInf = True"
| "less_eq_fl a b = False"

fun less_fl :: "fl \<Rightarrow> fl \<Rightarrow> bool" where
  "less_fl NaN b = False"
| "less_fl a NaN = False"
| "less_fl (Fin a) (Fin b) = (a < b)"
| "less_fl PInf b = False"
| "less_fl a NInf = False"
| "less_fl a b = True"

instance ..

end

text \<open>\<^verbatim>\<open>v ** 2\<close> and \<^verbatim>\<open>np.sqrt(v)\<close>.\<close>

definition fsq :: "fl \<Rightarrow> fl" where
  "fsq a = a * a"

fun fsqrt :: "fl \<Rightarrow> fl" where
  "fsqrt (Fin a) = (if 0 \<le> a then Fin (sqrt a) else NaN)"
| "fsqrt PInf = PInf"
| "fsqrt NInf = NaN"
| "fsqrt NaN = NaN"

text \<open>A Python \<^verbatim>\<open>int\<close> used in float arithmetic.\<close>

definition of_pyint :: "int \<Rightarrow> fl" where
  "of_pyint i = Fin (of_int i)"

text \<open>
  \<^verbatim>\<open>np.rint\<close> rounds to the nearest integer, a tie to the even neighbour, and keeps
  the special values.
\<close>

definition rint :: "real \<Rightarrow> int" where
  "rint r =
     (let f = \<lfloor>r\<rfloor>; d = r - of_int f
      in if d < 1 / 2 then f else if 1 / 2 < d then f + 1 else if even f then f else f + 1)"

fun np_rint :: "fl \<Rightarrow> fl" where
  "np_rint (Fin a) = Fin (of_int (rint a))"
| "np_rint PInf = PInf"
| "np_rint NInf = NInf"
| "np_rint NaN = NaN"

section \<open>Exceptions\<close>

text \<open>
  Every \<^verbatim>\<open>raise\<close> of the source and every exception of the numpy and pandas
  operations it calls is a value: a call returns \<open>Inl\<close> of the exception or \<open>Inr\<close>
  of its result. The validation failures are all \<^verbatim>\<open>ValueError\<close>s, told apart by
  their message.
\<close>

datatype py_error =
    ValueError string
  | OverflowError string
  | KeyError nat
  | IndexError string

text \<open>\<^verbatim>\<open>int(v)\<close> on a float truncates; it raises on \<open>NaN\<close> and on an infinity.\<close>

fun py_int :: "fl \<Rightarrow> py_error + int" where
  "py_int (Fin a) = Inr (if 0 \<le> a then \<lfloor>a\<rfloor> else \<lceil>a\<rceil>)"
| "py_int NaN = Inl (ValueError ''cannot convert float NaN to integer'')"
| "py_int PInf = Inl (OverflowError ''cannot convert float infinity to integer'')"
| "py_int NInf = Inl (OverflowError ''cannot convert float infinity to integer'')"

text \<open>
  Sequencing of two steps that may raise: the exception of the first step is the
  exception of the whole.
\<close>

definition bindE :: "'e + 'a \<Rightarrow> ('a \<Rightarrow> 'e + 'b) \<Rightarrow> 'e + 'b" where
  "bindE r f = (case r of Inl e \<Rightarrow> Inl e | Inr v \<Rightarrow> f v)"

text \<open>A \<^verbatim>\<open>for\<close> loop whose body may raise: the first exception ends the loop.\<close>

fun foldE :: "('a \<Rightarrow> 's \<Rightarrow> 'e + 's) \<Rightarrow> 'a list \<Rightarrow> 's \<Rightarrow> 'e + 's" where
  "foldE f [] s = Inr s"
| "foldE f (x # xs) s = bindE (f x s) (foldE f xs)"

text \<open>\<^verbatim>\<open>range(a, b)\<close> on Python integers.\<close>

definition py_range :: "int \<Rightarrow> int \<Rightarrow> int list" where
  "py_range a b = [a..b - 1]"

text \<open>
  An index into a numpy axis of length \<open>n\<close>: a negative index counts from the end,
  anything outside \<open>-n \<le> i < n\<close> raises \<^verbatim>\<open>IndexError\<close>.
\<close>

definition np_index :: "nat \<Rightarrow> int \<Rightarrow> py_error + nat" where
  "np_index n i =
     (if 0 \<le> i \<and> i < int n then Inr (nat i)
      else if - int n \<le> i \<and> i < 0 then Inr (nat (i + int n))
      else Inl (IndexError ''index is out of bounds''))"

definition np_get :: "'a list \<Rightarrow> int \<Rightarrow> py_error + 'a" where
  "np_get xs i = bindE (np_index (length xs) i) (\<lambda>k. Inr (xs ! k))"

definition np_set :: "'a list \<Rightarrow> int \<Rightarrow> 'a \<Rightarrow> py_error + 'a list" where
  "np_set xs i v = bindE (np_index (length xs) i) (\<lambda>k. Inr (xs[k := v]))"

section \<open>Particles and kernels\<close>

text \<open>
  A row of the data frame, with the columns the routines read: the two position
  columns and the target column the caller names, and the columns \<^verbatim>\<open>'m'\<close>,
  \<^verbatim>\<open>'rho'\<close> and \<^verbatim>\<open>'h'\<close>. The frame carries the default index: the label of
  a row is its position (as for every frame built by the tests). A kernel has its
  support radius, its number of dimensions and its weight function.
\<close>

record particle =
  part_x :: fl
  part_y :: fl
  part_m :: fl
  part_rho :: fl
  part_h :: fl
  part_target :: fl

record kernel =
  radkernel :: fl
  ndims :: int
  w :: "fl \<Rightarrow> fl"

type_synonym image = "fl list list"

section \<open>interpolate2D\<close>

text \<open>Line 56: the dimensionless weight of a particle.\<close>

definition weight :: "particle \<Rightarrow> fl" where
  "weight p = part_m p / (part_rho p * fsq (part_h p))"

text \<open>
  Lines 72 to 85: the pixel index range of a particle on both axes, rounded and
  clamped to the image; the result is \<open>(ipixmin, ipixmax, jpixmin, jpixmax)\<close>.
\<close>

definition pixel_range ::
  "kernel \<Rightarrow> fl \<Rightarrow> fl \<Rightarrow> fl \<Rightarrow> fl \<Rightarrow> int \<Rightarrow> int \<Rightarrow> particle
    \<Rightarrow> py_error + (int \<times> int \<times> int \<times> int)" where
  "pixel_range kern pixwidthx pixwidthy xmin ymin pixcountx pixcounty p =
     (let radkern = radkernel kern * part_h p in
      bindE (py_int (np_rint ((part_x p - radkern - xmin) / pixwidthx))) (\<lambda>ipixmin.
      bindE (py_int (np_rint ((part_y p - radkern - ymin) / pixwidthy))) (\<lambda>jpixmin.
      bindE (py_int (np_rint ((part_x p + radkern - xmin) / pixwidthx))) (\<lambda>ipixmax.
      bindE (py_int (np_rint ((part_y p + radkern - ymin) / pixwidthy))) (\<lambda>jpixmax.
        Inr (if ipixmin < 0 then 0 else ipixmin,
             if ipixmax > pixcountx then pixcountx else ipixmax,
             if jpixmin < 0 then 0 else jpixmin,
             if jpixmax > pixcounty then pixcounty else jpixmax))))))"

text \<open>Lines 88 to 90: the buffer of scaled squared x distances.\<close>

definition dx2 :: "fl \<Rightarrow> fl \<Rightarrow> fl \<Rightarrow> fl \<Rightarrow> int \<Rightarrow> fl" where
  "dx2 xmin pixwidthx px hi21 ipix =
     fsq (xmin + (of_pyint ipix + Fin (1 / 2)) * pixwidthx - px) * hi21"

definition dx2i_loop :: "fl \<Rightarrow> fl \<Rightarrow> fl \<Rightarrow> fl \<Rightarrow> int \<Rightarrow> int \<Rightarrow> int \<Rightarrow> py_error + fl list" where
  "dx2i_loop xmin pixwidthx px hi21 pixcountx ipixmin ipixmax =
     foldE (\<lambda>ipix dx2i. np_set dx2i ipix (dx2 xmin pixwidthx px hi21 ipix))
       (py_range ipixmin ipixmax) (replicate (nat pixcountx) (Fin 0))"

text \<open>Line 105: \<^verbatim>\<open>image[jpix][ipix] += v\<close>.\<close>

definition image_add :: "image \<Rightarrow> int \<Rightarrow> int \<Rightarrow> fl \<Rightarrow> py_error + image" where
  "image_add img jpix ipix v =
     bindE (np_index (length img) jpix) (\<lambda>j.
     bindE (np_index (length (img ! j)) ipix) (\<lambda>i.
       Inr (img[j := (img ! j)[i := img ! j ! i + v]])))"

text \<open>Lines 95 to 97: the scaled squared y distance of a row.\<close>

definition dy2 :: "fl \<Rightarrow> fl \<Rightarrow> fl \<Rightarrow> fl \<Rightarrow> int \<Rightarrow> fl" where
  "dy2 ymin pixwidthy py hi21 jpix =
     (let ypix = ymin + (of_pyint jpix + Fin (1 / 2)) * pixwidthy;
          dy = ypix - py
      in dy * dy * hi21)"

text \<open>Lines 99 to 105: one row of the affected pixels.\<close>

definition row_loop ::
  "kernel \<Rightarrow> fl list \<Rightarrow> fl \<Rightarrow> fl \<Rightarrow> int \<Rightarrow> int \<Rightarrow> int \<Rightarrow> image \<Rightarrow> py_error + image" where
  "row_loop kern dx2i tm dy2v ipixmin ipixmax jpix img =
     foldE (\<lambda>ipix im.
         bindE (np_get dx2i ipix) (\<lambda>d.
           let q2 = d + dy2v; wab = w kern (fsqrt q2)
           in image_add im jpix ipix (tm * wab)))
       (py_range ipixmin ipixmax) img"

text \<open>
  Lines 54 to 105: the body of the loop over the particles, from the image so far to
  the image with this particle's contribution.
\<close>

definition add_particle ::
  "kernel \<Rightarrow> fl \<Rightarrow> fl \<Rightarrow> fl \<Rightarrow> fl \<Rightarrow> int \<Rightarrow> int \<Rightarrow> particle \<Rightarrow> image
    \<Rightarrow> py_error + image" where
  "add_particle kern pixwidthx pixwidthy xmin ymin pixcountx pixcounty p img =
     (if weight p \<le> Fin 0 then Inr img
      else
        let tm = weight p * part_target p;
            hi1 = Fin 1 / part_h p;
            hi21 = fsq hi1
        in
        bindE (pixel_range kern pixwidthx pixwidthy xmin ymin pixcountx pixcounty p)
          (\<lambda>(ipixmin, ipixmax, jpixmin, jpixmax).
        bindE (dx2i_loop xmin pixwidthx (part_x p) hi21 pixcountx ipixmin ipixmax)
          (\<lambda>dx2i.
        foldE (\<lambda>jpix im.
            row_loop kern dx2i tm (dy2 ymin pixwidthy (part_y p) hi21 jpix)
              ipixmin ipixmax jpix im)
          (py_range jpixmin jpixmax) img)))"

text \<open>Line 50: \<^verbatim>\<open>np.zeros((pixcounty, pixcountx))\<close>.\<close>

definition zeros2 :: "int \<Rightarrow> int \<Rightarrow> image" where
  "zeros2 rows cols = replicate (nat rows) (replicate (nat cols) (Fin 0))"

definition interpolate2D ::
  "particle list \<Rightarrow> kernel \<Rightarrow> fl \<Rightarrow> fl \<Rightarrow> fl \<Rightarrow> fl \<Rightarrow> int \<Rightarrow> int \<Rightarrow> py_error + image" where
  "interpolate2D data kern pixwidthx pixwidthy xmin ymin pixcountx pixcounty =
     (if pixwidthx \<le> Fin 0 then Inl (ValueError ''pixwidthx must be greater than zero!'')
      else if pixwidthy \<le> Fin 0 then Inl (ValueError ''pixwidthy must be greater than zero!'')
      else if pixcountx \<le> 0 then Inl (ValueError ''pixcountx must be greater than zero!'')
      else if pixcounty \<le> 0 then Inl (ValueError ''pixcounty must be greater than zero!'')
      else if ndims kern \<noteq> 2 then Inl (ValueError ''Kernel must be two-dimensional!'')
      else
        foldE (add_particle kern pixwidthx pixwidthy xmin ymin pixcountx pixcounty)
          data (zeros2 pixcounty pixcountx))"

section \<open>interpolate2DCross\<close>

text \<open>
  \<^verbatim>\<open>np.isclose(a, b)\<close> with its default tolerances: two finite numbers are close when
  \<open>\<bar>a - b\<bar> \<le> atol + rtol * \<bar>b\<bar>\<close>, an infinity is close to itself only, and
  \<open>NaN\<close> is close to nothing.
\<close>

fun isclose :: "fl \<Rightarrow> fl \<Rightarrow> bool" where
  "isclose (Fin a) (Fin b) = (\<bar>a - b\<bar> \<le> 1 / 10 ^ 8 + (1 / 10 ^ 5) * \<bar>b\<bar>)"
| "isclose PInf b = (b = PInf)"
| "isclose NInf b = (b = NInf)"
| "isclose (Fin a) b = False"
| "isclose NaN b = False"

text \<open>
  \<^verbatim>\<open>Series.clip(lower, upper)\<close> with scalar bounds: a \<open>NaN\<close> bound is no bound, two
  bounds given in the wrong order are swapped, and a \<open>NaN\<close> entry stays \<open>NaN\<close>.
\<close>

definition clip_upper :: "fl \<Rightarrow> fl \<Rightarrow> fl" where
  "clip_upper upper v = (if v = NaN \<or> upper = NaN \<or> v \<le> upper then v else upper)"

definition clip_lower :: "fl \<Rightarrow> fl \<Rightarrow> fl" where
  "clip_lower lower v = (if v = NaN \<or> lower = NaN \<or> lower \<le> v then v else lower)"

definition clip :: "fl \<Rightarrow> fl \<Rightarrow> fl \<Rightarrow> fl" where
  "clip lower upper v =
     (if lower \<noteq> NaN \<and> upper \<noteq> NaN
      then clip_lower (if upper < lower then upper else lower)
             (clip_upper (if lower < upper then upper else lower) v)
      else clip_lower lower (clip_upper upper v))"

text \<open>
  A pandas \<^verbatim>\<open>Series\<close> is a list of labelled values, in row order. Selecting with a
  boolean series keeps the labels of the rows it keeps. \<^verbatim>\<open>s[i]\<close> with an integer
  \<open>i\<close> on a series with an integer index looks the \<^emph>\<open>label\<close> \<open>i\<close> up and raises
  \<^verbatim>\<open>KeyError\<close> when no row carries it, whereas \<^verbatim>\<open>s.to_numpy().nonzero()[0]\<close>
  lists \<^emph>\<open>positions\<close>.
\<close>

type_synonym 'a series = "(nat \<times> 'a) list"

definition loc :: "'a series \<Rightarrow> nat \<Rightarrow> py_error + 'a" where
  "loc s i = (case map_of s i of None \<Rightarrow> Inl (KeyError i) | Some v \<Rightarrow> Inr v)"

definition nonzero :: "bool list \<Rightarrow> nat list" where
  "nonzero bs = map fst (filter snd (enumerate 0 bs))"

text \<open>Lines 147 to 156: the line through the two end points and the pixel widths.\<close>

definition gradient_of :: "fl \<Rightarrow> fl \<Rightarrow> fl \<Rightarrow> fl \<Rightarrow> fl" where
  "gradient_of x1 y1 x2 y2 = (if \<not> isclose x2 x1 then (y2 - y1) / (x2 - x1) else Fin 0)"

definition xlength_of :: "fl \<Rightarrow> fl \<Rightarrow> fl \<Rightarrow> fl \<Rightarrow> fl" where
  "xlength_of x1 y1 x2 y2 = fsqrt (fsq (x2 - x1) + fsq (y2 - y1))"

text \<open>Lines 159 and 160, for one row: the term of a particle and the weight filter.\<close>

definition term_of :: "particle \<Rightarrow> fl" where
  "term_of p = part_target p * part_m p / (part_rho p * fsq (part_h p))"

definition filter_weight :: "particle \<Rightarrow> bool" where
  "filter_weight p = (term_of p / part_target p > Fin 0)"

text \<open>
  Lines 166 to 174, for one row that passed the weight filter: the quadratic of the
  intersection of the line with the smoothing circle, and the filter on its
  discriminant.
\<close>

definition bb_of :: "fl \<Rightarrow> fl \<Rightarrow> particle \<Rightarrow> fl" where
  "bb_of gradient yint p = Fin 2 * gradient * (yint - part_y p) - Fin 2 * part_x p"

definition cc_of :: "kernel \<Rightarrow> fl \<Rightarrow> particle \<Rightarrow> fl" where
  "cc_of kern yint p =
     fsq (part_x p) + fsq (part_y p) - Fin 2 * yint * part_y p + fsq yint
       - fsq (radkernel kern * part_h p)"

definition det_of :: "kernel \<Rightarrow> fl \<Rightarrow> fl \<Rightarrow> particle \<Rightarrow> fl" where
  "det_of kern gradient yint p =
     (let aa = Fin 1 + fsq gradient
      in fsq (bb_of gradient yint p) - Fin 4 * aa * cc_of kern yint p)"

definition filter_det :: "kernel \<Rightarrow> fl \<Rightarrow> fl \<Rightarrow> particle \<Rightarrow> bool" where
  "filter_det kern gradient yint p = (det_of kern gradient yint p \<ge> Fin 0)"

text \<open>
  Lines 175 to 190, for one row that passed both filters: where the line enters and
  leaves the smoothing circle, as distances along the line and as pixel indices.
\<close>

definition xstart_of :: "kernel \<Rightarrow> fl \<Rightarrow> fl \<Rightarrow> fl \<Rightarrow> fl \<Rightarrow> particle \<Rightarrow> fl" where
  "xstart_of kern gradient yint x1 x2 p =
     (let aa = Fin 1 + fsq gradient; det = fsqrt (det_of kern gradient yint p)
      in clip x1 x2 ((- bb_of gradient yint p - det) / (Fin 2 * aa)))"

definition xend_of :: "kernel \<Rightarrow> fl \<Rightarrow> fl \<Rightarrow> fl \<Rightarrow> fl \<Rightarrow> particle \<Rightarrow> fl" where
  "xend_of kern gradient yint x1 x2 p =
     (let aa = Fin 1 + fsq gradient; det = fsqrt (det_of kern gradient yint p)
      in clip x1 x2 ((- bb_of gradient yint p + det) / (Fin 2 * aa)))"

definition rdist :: "fl \<Rightarrow> fl \<Rightarrow> fl \<Rightarrow> fl \<Rightarrow> fl \<Rightarrow> fl" where
  "rdist gradient yint x1 y1 xs = fsqrt (fsq (xs - x1) + fsq ((gradient * xs + yint) - y1))"

definition ipix_of :: "fl \<Rightarrow> int \<Rightarrow> fl \<Rightarrow> fl" where
  "ipix_of pixwidth pixcount r = clip (Fin 0) (of_pyint pixcount) (np_rint (r / pixwidth))"

text \<open>
  \<^verbatim>\<open>output[lo:hi] += vals\<close>: the slice bounds are normalised as Python does, and the
  right-hand side must have the length of the slice or length one.
\<close>

definition slice_bound :: "nat \<Rightarrow> int \<Rightarrow> nat" where
  "slice_bound n i = nat (if i < 0 then max 0 (i + int n) else min i (int n))"

definition slice_add :: "fl list \<Rightarrow> int \<Rightarrow> int \<Rightarrow> fl list \<Rightarrow> py_error + fl list" where
  "slice_add output lo hi vals =
     (let s = slice_bound (length output) lo;
          e = slice_bound (length output) hi;
          k = e - s
      in if length vals = k
         then Inr (take s output @ map2 (+) (take k (drop s output)) vals @ drop (s + k) output)
         else if length vals = 1
         then Inr (take s output @ map (\<lambda>v. v + hd vals) (take k (drop s output))
                    @ drop (s + k) output)
         else Inl (ValueError ''operands could not be broadcast together''))"

text \<open>
  Lines 194 to 205: the body of the loop. \<open>i\<close> is a position in \<open>filter_det\<close>; the
  body uses it as a label of \<open>ipixmin\<close>, \<open>ipixmax\<close>, the columns of the frame and
  \<open>term\<close>.
\<close>

definition cross_body ::
  "kernel \<Rightarrow> particle series \<Rightarrow> fl series \<Rightarrow> fl series \<Rightarrow> fl series \<Rightarrow> fl \<Rightarrow> fl \<Rightarrow> fl \<Rightarrow> fl
    \<Rightarrow> nat \<Rightarrow> fl list \<Rightarrow> py_error + fl list" where
  "cross_body kern rows tm ipixmin ipixmax gradient yint x1 xpixwidth i output =
     bindE (loc ipixmin i) (\<lambda>vmin.
     bindE (py_int vmin) (\<lambda>lo.
     bindE (loc ipixmax i) (\<lambda>vmax.
     bindE (py_int vmax) (\<lambda>hi.
     bindE (loc rows i) (\<lambda>p.
     bindE (loc tm i) (\<lambda>ti.
       let xpix = map (\<lambda>k. x1 + (of_pyint k + Fin (1 / 2)) * xpixwidth) (py_range lo hi);
           q2 = map (\<lambda>xp.
                  let yp = gradient * xp + yint;
                      dy = yp - part_y p;
                      dx = xp - part_x p
                  in (dx * dx + dy * dy) * (Fin 1 / (part_h p * part_h p))) xpix;
           wab = map (\<lambda>q. w kern (fsqrt q)) q2
       in slice_add output lo hi (map (\<lambda>v. v * ti) wab)))))))"

definition interpolate2DCross ::
  "particle list \<Rightarrow> kernel \<Rightarrow> fl \<Rightarrow> fl \<Rightarrow> fl \<Rightarrow> fl \<Rightarrow> int \<Rightarrow> py_error + fl list" where
  "interpolate2DCross data kern x1 y1 x2 y2 pixcount =
     (if isclose y2 y1 \<and> isclose x2 x1 then Inl (ValueError ''Zero length cross section!'')
      else if pixcount \<le> 0 then Inl (ValueError ''pixcount must be greater than zero!'')
      else if ndims kern \<noteq> 2 then Inl (ValueError ''Kernel must be two-dimensional!'')
      else
        let output = replicate (nat pixcount) (Fin 0);
            gradient = gradient_of x1 y1 x2 y2;
            yint = y2 - gradient * x2;
            pixwidth = xlength_of x1 y1 x2 y2 / of_pyint pixcount;
            xpixwidth = (x2 - x1) / of_pyint pixcount;
            rows = enumerate 0 data;
            tm = map (\<lambda>(l, p). (l, term_of p)) rows;
            wrows = filter (\<lambda>(l, p). filter_weight p) rows;
            fdet = map (\<lambda>(l, p). filter_det kern gradient yint p) wrows;
            drows = filter (\<lambda>(l, p). filter_det kern gradient yint p) wrows;
            ipixmin = map (\<lambda>(l, p). (l, ipix_of pixwidth pixcount
                (rdist gradient yint x1 y1 (xstart_of kern gradient yint x1 x2 p)))) drows;
            ipixmax = map (\<lambda>(l, p). (l, ipix_of pixwidth pixcount
                (rdist gradient yint x1 y1 (xend_of kern gradient yint x1 x2 p)))) drows
        in foldE (cross_body kern rows tm ipixmin ipixmax gradient yint x1 xpixwidth)
             (nonzero fdet) output)"

section \<open>Notions used to state the properties\<close>

text \<open>
  The list \<open>xs\<close> with \<open>G i\<close> applied to the entry at every index \<open>i\<close> with
  \<open>a \<le> i < b\<close>, and the image with \<open>F j i\<close> added to every pixel of the rectangle
  \<open>jmin \<le> j < jmax\<close>, \<open>imin \<le> i < imax\<close>.
\<close>

definition upd_range :: "int \<Rightarrow> int \<Rightarrow> (int \<Rightarrow> 'a \<Rightarrow> 'a) \<Rightarrow> 'a list \<Rightarrow> 'a list" where
  "upd_range a b G xs =
     map (\<lambda>(k, v). if a \<le> int k \<and> int k < b then G (int k) v else v) (enumerate 0 xs)"

definition add_rect :: "image \<Rightarrow> int \<Rightarrow> int \<Rightarrow> int \<Rightarrow> int \<Rightarrow> (int \<Rightarrow> int \<Rightarrow> fl) \<Rightarrow> image" where
  "add_rect img jmin jmax imin imax F =
     upd_range jmin jmax (\<lambda>j. upd_range imin imax (\<lambda>i v. v + F j i)) img"

text \<open>An image of the shape \<^verbatim>\<open>(rows, cols)\<close>.\<close>

definition shaped :: "int \<Rightarrow> int \<Rightarrow> image \<Rightarrow> bool" where
  "shaped rows cols img = (length img = nat rows \<and> (\<forall>r \<in> set img. length r = nat cols))"

text \<open>
  What lines 95 to 105 add to pixel \<open>(jpix, ipix)\<close> for particle \<open>p\<close>: the term of the
  particle times the kernel at the scaled distance of the pixel centre.
\<close>

definition contrib :: "kernel \<Rightarrow> fl \<Rightarrow> fl \<Rightarrow> fl \<Rightarrow> fl \<Rightarrow> particle \<Rightarrow> int \<Rightarrow> int \<Rightarrow> fl" where
  "contrib kern pixwidthx pixwidthy xmin ymin p jpix ipix =
     (let hi21 = fsq (Fin 1 / part_h p);
          q2 = dx2 xmin pixwidthx (part_x p) hi21 ipix + dy2 ymin pixwidthy (part_y p) hi21 jpix
      in weight p * part_target p * w kern (fsqrt q2))"

text \<open>
  The index range of the specification, section 4.2 step 4: the mapped coordinate is
  rounded to the nearest integer, the minimum is clamped to at least 0 and the maximum
  to at most the pixel count.
\<close>

definition spec_min :: "real \<Rightarrow> int" where
  "spec_min q = max 0 (rint q)"

definition spec_max :: "int \<Rightarrow> real \<Rightarrow> int" where
  "spec_max n q = min n (rint q)"

text \<open>
  One list is a reordering of another: the relation generated by exchanging two
  neighbours.
\<close>

inductive reordered :: "'a list \<Rightarrow> 'a list \<Rightarrow> bool" where
  same: "reordered xs xs"
| swap: "reordered (x # y # xs) (y # x # xs)"
| under: "reordered xs ys \<Longrightarrow> reordered (z # xs) (z # ys)"
| chain: "reordered xs ys \<Longrightarrow> reordered ys zs \<Longrightarrow> reordered xs zs"


definition invalid_parameter :: "py_error \<Rightarrow> bool" where
  "invalid_parameter e =
     (e = ValueError ''pixwidthx must be greater than zero!'' \<or>
      e = ValueError ''pixwidthy must be greater than zero!'' \<or>
      e = ValueError ''pixcountx must be greater than zero!'' \<or>
      e = ValueError ''pixcounty must be greater than zero!'' \<or>
      e = ValueError ''Zero length cross section!'' \<or>
      e = ValueError ''pixcount must be greater than zero!'')"

text \<open>The exceptions of \<^verbatim>\<open>int(v)\<close>.\<close>

definition conversion_error :: "py_error \<Rightarrow> bool" where
  "conversion_error e =
     (e = ValueError ''cannot convert float NaN to integer'' \<or>
      e = OverflowError ''cannot convert float infinity to integer'')"

section \<open>Example data\<close>

text \<open>
  A kernel with a linear profile on its support of radius one, the same kernel
  declared three-dimensional, and a few particles.
\<close>

definition tent_w :: "fl \<Rightarrow> fl" where
  "tent_w q = (if q \<le> Fin 1 then Fin 1 - q else Fin 0)"

definition tent :: kernel where
  "tent = \<lparr>radkernel = Fin 1, ndims = 2, w = tent_w\<rparr>"


text \<open>An ordinary particle at \<open>(1, 0)\<close> with field value 3.\<close>

definition good :: particle where
  "good = \<lparr>part_x = Fin 1, part_y = Fin 0, part_m = Fin 1, part_rho = Fin 1,
            part_h = Fin 1, part_target = Fin 3\<rparr>"

text \<open>The same particle with field value 0, and one with field value 0 far from the x axis.\<close>

definition still :: particle where
  "still = \<lparr>part_x = Fin 1, part_y = Fin 0, part_m = Fin 1, part_rho = Fin 1,
             part_h = Fin 1, part_target = Fin 0\<rparr>"

definition far_still :: particle where
  "far_still = \<lparr>part_x = Fin 1, part_y = Fin 5, part_m = Fin 1, part_rho = Fin 1,
                 part_h = Fin 1, part_target = Fin 0\<rparr>"

text \<open>
  Particles at the centre of the unit pixel: one with negative mass and negative
  density, one with smoothing length zero.
\<close>

definition negative :: particle where
  "negative = \<lparr>part_x = Fin (1 / 2), part_y = Fin (1 / 2), part_m = Fin (- 1),
                part_rho = Fin (- 1), part_h = Fin 1, part_target = Fin 1\<rparr>"


section \<open>Facts about the loops\<close>

lemma bindE_simps [simp]:
  "bindE (Inl e) f = Inl e"
  "bindE (Inr v) f = f v"
  by (simp_all add: bindE_def)

lemma foldE_append:
  "foldE f (xs @ ys) s = bindE (foldE f xs s) (foldE f ys)"
  by (induction xs arbitrary: s) (auto simp: bindE_def split: sum.splits)

lemma py_range_empty: "b \<le> a \<Longrightarrow> py_range a b = []"
  by (simp add: py_range_def)

lemma py_range_rec: "a < b \<Longrightarrow> py_range a b = a # py_range (a + 1) b"
  by (simp add: py_range_def upto_rec1)

lemma set_py_range: "set (py_range a b) = {i. a \<le> i \<and> i < b}"
  by (auto simp: py_range_def)

lemma np_index_inrange: "0 \<le> i \<Longrightarrow> i < int n \<Longrightarrow> np_index n i = Inr (nat i)"
  by (simp add: np_index_def)

lemma length_upd_range [simp]: "length (upd_range a b G xs) = length xs"
  by (simp add: upd_range_def)

lemma nth_upd_range:
  "k < length xs \<Longrightarrow>
   upd_range a b G xs ! k = (if a \<le> int k \<and> int k < b then G (int k) (xs ! k) else xs ! k)"
  by (simp add: upd_range_def nth_enumerate_eq)

lemma upd_range_empty: "b \<le> a \<Longrightarrow> upd_range a b G xs = xs"
  by (rule nth_equalityI) (auto simp: nth_upd_range)

lemma upd_range_step:
  assumes "0 \<le> a" "a < b" "a < int (length xs)"
  shows "upd_range (a + 1) b G (xs[nat a := G a (xs ! nat a)]) = upd_range a b G xs"
proof (rule nth_equalityI)
  show "length (upd_range (a + 1) b G (xs[nat a := G a (xs ! nat a)])) = length (upd_range a b G xs)"
    by simp
next
  fix k assume "k < length (upd_range (a + 1) b G (xs[nat a := G a (xs ! nat a)]))"
  then have k: "k < length xs" by simp
  show "upd_range (a + 1) b G (xs[nat a := G a (xs ! nat a)]) ! k = upd_range a b G xs ! k"
  proof (cases "k = nat a")
    case True
    with assms k show ?thesis by (simp add: nth_upd_range)
  next
    case False
    with assms k have "int k \<noteq> a" by auto
    with False assms k show ?thesis by (auto simp: nth_upd_range)
  qed
qed

lemma foldE_upd_range:
  assumes step: "\<And>i xs. a0 \<le> i \<Longrightarrow> i < b \<Longrightarrow> length xs = n \<Longrightarrow> Inv xs \<Longrightarrow>
      step i xs = Inr (xs[nat i := G i (xs ! nat i)]) \<and> Inv (xs[nat i := G i (xs ! nat i)])"
    and "a0 \<le> a" "0 \<le> a" "b \<le> int n" "length xs = n" "Inv xs"
  shows "foldE step (py_range a b) xs = Inr (upd_range a b G xs)"
  using assms(2-)
proof (induction "nat (b - a)" arbitrary: a xs)
  case 0
  then show ?case by (simp add: py_range_empty upd_range_empty)
next
  case (Suc m)
  then have ab: "a < b" by linarith
  let ?xs1 = "xs[nat a := G a (xs ! nat a)]"
  from step[of a xs] Suc.prems ab
  have s1: "step a xs = Inr ?xs1" and inv1: "Inv ?xs1" by auto
  have "foldE step (py_range (a + 1) b) ?xs1 = Inr (upd_range (a + 1) b G ?xs1)"
    using Suc.hyps(2) Suc.prems inv1 by (intro Suc.hyps(1)) auto
  moreover have "upd_range (a + 1) b G ?xs1 = upd_range a b G xs"
    using Suc.prems ab by (intro upd_range_step) auto
  ultimately show ?case
    using ab s1 by (simp add: py_range_rec)
qed

lemma upd_range_cong:
  assumes "\<And>i. a \<le> i \<Longrightarrow> i < b \<Longrightarrow> 0 \<le> i \<Longrightarrow> i < int (length xs) \<Longrightarrow> G i (xs ! nat i) = G' i (xs ! nat i)"
  shows "upd_range a b G xs = upd_range a b G' xs"
proof (rule nth_equalityI)
  show "length (upd_range a b G xs) = length (upd_range a b G' xs)" by simp
next
  fix k assume "k < length (upd_range a b G xs)"
  then have k: "k < length xs" by simp
  show "upd_range a b G xs ! k = upd_range a b G' xs ! k"
    using k assms[of "int k"] by (simp add: nth_upd_range)
qed

lemma dx2i_loop_eq:
  assumes "0 \<le> a" "b \<le> n"
  shows "dx2i_loop xmin pixwidthx px hi21 n a b =
           Inr (upd_range a b (\<lambda>i v. dx2 xmin pixwidthx px hi21 i) (replicate (nat n) (Fin 0)))"
  unfolding dx2i_loop_def
proof (rule foldE_upd_range[where ?a0.0 = a and n = "nat n" and Inv = "\<lambda>_. True"])
  fix i :: int and xs :: "fl list"
  assume "a \<le> i" "i < b" "length xs = nat n"
  with assms show "np_set xs i (dx2 xmin pixwidthx px hi21 i)
       = Inr (xs[nat i := dx2 xmin pixwidthx px hi21 i]) \<and> True"
    by (simp add: np_set_def np_index_inrange)
qed (use assms in auto)

lemma row_loop_eq:
  assumes "0 \<le> a" "b \<le> int n" "0 \<le> jpix" "jpix < int (length img)"
    "length (img ! nat jpix) = n" "length dx2i = n"
  shows "row_loop kern dx2i tm dy2v a b jpix img =
     Inr (img[nat jpix := upd_range a b (\<lambda>i v. v + tm * w kern (fsqrt (dx2i ! nat i + dy2v)))
        (img ! nat jpix)])"
  using assms
proof (induction "nat (b - a)" arbitrary: a img)
  case 0
  then have "b \<le> a" by simp
  then show ?case
    using 0 by (simp add: row_loop_def py_range_empty upd_range_empty)
next
  case (Suc m)
  let ?G = "\<lambda>i v. v + tm * w kern (fsqrt (dx2i ! nat i + dy2v))"
  let ?j = "nat jpix"
  let ?row = "img ! ?j"
  let ?img1 = "img[?j := ?row[nat a := ?G a (?row ! nat a)]]"
  from Suc have ab: "a < b" by linarith
  have step: "bindE (np_get dx2i a) (\<lambda>d. let q2 = d + dy2v; wab = w kern (fsqrt q2)
           in image_add img jpix a (tm * wab)) = Inr ?img1"
    using Suc.prems ab by (simp add: np_get_def image_add_def np_index_inrange Let_def)
  have "row_loop kern dx2i tm dy2v (a + 1) b jpix ?img1 =
     Inr (?img1[?j := upd_range (a + 1) b ?G (?img1 ! ?j)])"
    using Suc.hyps(2) Suc.prems ab by (intro Suc.hyps(1)) auto
  moreover have "?img1 ! ?j = ?row[nat a := ?G a (?row ! nat a)]"
    using Suc.prems by simp
  moreover have "upd_range (a + 1) b ?G (?row[nat a := ?G a (?row ! nat a)]) = upd_range a b ?G ?row"
    using Suc.prems ab by (intro upd_range_step) auto
  ultimately have "row_loop kern dx2i tm dy2v (a + 1) b jpix ?img1 =
     Inr (img[?j := upd_range a b ?G ?row])"
    by simp
  then show ?case
    using ab step by (simp add: row_loop_def py_range_rec)
qed

lemma pixel_range_bounds:
  assumes "pixel_range kern pixwidthx pixwidthy xmin ymin pixcountx pixcounty p
            = Inr (imin, imax, jmin, jmax)"
  shows "0 \<le> imin \<and> imax \<le> pixcountx \<and> 0 \<le> jmin \<and> jmax \<le> pixcounty"
  using assms
  by (auto simp: pixel_range_def Let_def bindE_def split: sum.splits if_splits)

lemma shaped_row: "shaped rows cols img \<Longrightarrow> k < length img \<Longrightarrow> length (img ! k) = nat cols"
  by (simp add: shaped_def)

lemma shaped_add_rect: "shaped rows cols img \<Longrightarrow> shaped rows cols (add_rect img jmin jmax imin imax F)"
  by (auto simp: shaped_def add_rect_def all_set_conv_all_nth nth_upd_range)

lemma rows_loop_eq:
  assumes sh: "shaped rows cols img" and b: "0 \<le> imin" "imax \<le> cols" "0 \<le> jmin" "jmax \<le> rows"
    and dl: "length dx2i = nat cols"
  shows "foldE (\<lambda>jpix im. row_loop kern dx2i tm (D jpix) imin imax jpix im) (py_range jmin jmax) img
       = Inr (upd_range jmin jmax
            (\<lambda>j. upd_range imin imax (\<lambda>i v. v + tm * w kern (fsqrt (dx2i ! nat i + D j)))) img)"
proof (rule foldE_upd_range[where ?a0.0 = jmin and n = "nat rows"
        and Inv = "\<lambda>im. \<forall>r \<in> set im. length r = nat cols"])
  fix j :: int and im :: image
  assume j: "jmin \<le> j" "j < jmax" and len: "length im = nat rows"
    and inv: "\<forall>r \<in> set im. length r = nat cols"
  let ?r = "upd_range imin imax (\<lambda>i v. v + tm * w kern (fsqrt (dx2i ! nat i + D j))) (im ! nat j)"
  have jl: "0 \<le> j" "j < int (length im)" using j b len by auto
  then have rl: "length (im ! nat j) = nat cols" using inv by simp
  have "row_loop kern dx2i tm (D j) imin imax j im = Inr (im[nat j := ?r])"
    using b jl rl dl by (intro row_loop_eq[where n = "nat cols"]) auto
  moreover have "\<forall>r \<in> set (im[nat j := ?r]). length r = nat cols"
    using inv rl by (auto dest!: set_update_subset_insert[THEN subsetD])
  ultimately show "row_loop kern dx2i tm (D j) imin imax j im = Inr (im[nat j := ?r])
      \<and> (\<forall>r \<in> set (im[nat j := ?r]). length r = nat cols)"
    by simp
qed (use sh b in \<open>auto simp: shaped_def\<close>)

lemma add_particle_eq:
  assumes sh: "shaped pixcounty pixcountx img" and pos: "0 \<le> pixcountx"
    and nskip: "\<not> weight p \<le> Fin 0"
    and pr: "pixel_range kern pixwidthx pixwidthy xmin ymin pixcountx pixcounty p
            = Inr (imin, imax, jmin, jmax)"
  shows "add_particle kern pixwidthx pixwidthy xmin ymin pixcountx pixcounty p img
       = Inr (add_rect img jmin jmax imin imax (contrib kern pixwidthx pixwidthy xmin ymin p))"
proof -
  let ?hi21 = "fsq (Fin 1 / part_h p)"
  let ?tm = "weight p * part_target p"
  let ?dx2i = "upd_range imin imax (\<lambda>i v. dx2 xmin pixwidthx (part_x p) ?hi21 i)
      (replicate (nat pixcountx) (Fin 0))"
  let ?D = "dy2 ymin pixwidthy (part_y p) ?hi21"
  from pixel_range_bounds[OF pr]
  have b: "0 \<le> imin" "imax \<le> pixcountx" "0 \<le> jmin" "jmax \<le> pixcounty" by auto
  have dx: "dx2i_loop xmin pixwidthx (part_x p) ?hi21 pixcountx imin imax = Inr ?dx2i"
    using b by (intro dx2i_loop_eq) auto
  have rows: "foldE (\<lambda>jpix im. row_loop kern ?dx2i ?tm (?D jpix) imin imax jpix im)
       (py_range jmin jmax) img
     = Inr (upd_range jmin jmax
          (\<lambda>j. upd_range imin imax (\<lambda>i v. v + ?tm * w kern (fsqrt (?dx2i ! nat i + ?D j)))) img)"
    using sh b by (intro rows_loop_eq) auto
  have inner: "upd_range imin imax (\<lambda>i v. v + ?tm * w kern (fsqrt (?dx2i ! nat i + ?D j))) r
      = upd_range imin imax (\<lambda>i v. v + contrib kern pixwidthx pixwidthy xmin ymin p j i) r"
    if "length r = nat pixcountx" for j r
  proof (rule upd_range_cong)
    fix i :: int
    assume i: "imin \<le> i" "i < imax" "0 \<le> i" "i < int (length r)"
    then have "nat i < length (replicate (nat pixcountx) (Fin 0 :: fl))"
      using that by (auto split: if_splits)
    then have "?dx2i ! nat i = dx2 xmin pixwidthx (part_x p) ?hi21 i"
      using i by (simp add: nth_upd_range del: length_replicate)
    then show "r ! nat i + ?tm * w kern (fsqrt (?dx2i ! nat i + ?D j))
        = r ! nat i + contrib kern pixwidthx pixwidthy xmin ymin p j i"
      by (simp add: contrib_def Let_def)
  qed
  have "upd_range jmin jmax
          (\<lambda>j. upd_range imin imax (\<lambda>i v. v + ?tm * w kern (fsqrt (?dx2i ! nat i + ?D j)))) img
      = add_rect img jmin jmax imin imax (contrib kern pixwidthx pixwidthy xmin ymin p)"
    unfolding add_rect_def
  proof (rule upd_range_cong)
    fix j :: int
    assume "0 \<le> j" "j < int (length img)"
    then have "nat j < length img" by simp
    then have "length (img ! nat j) = nat pixcountx"
      using sh by (rule shaped_row[rotated])
    then show "upd_range imin imax (\<lambda>i v. v + ?tm * w kern (fsqrt (?dx2i ! nat i + ?D j))) (img ! nat j)
        = upd_range imin imax (\<lambda>i v. v + contrib kern pixwidthx pixwidthy xmin ymin p j i) (img ! nat j)"
      by (rule inner)
  qed
  with rows dx nskip pr show ?thesis
    by (simp add: add_particle_def Let_def)
qed

section \<open>Which exceptions the loops can raise\<close>

lemma foldE_error:
  assumes "\<And>x s e. f x s = Inl e \<Longrightarrow> P e" and "foldE f xs s = Inl e"
  shows "P e"
  using assms(2)
proof (induction xs arbitrary: s)
  case Nil
  then show ?case by simp
next
  case (Cons x xs)
  show ?case
  proof (cases "f x s")
    case (Inl e')
    with Cons.prems have "e' = e" by simp
    with Inl assms(1) show ?thesis by blast
  next
    case (Inr s')
    with Cons.prems have "foldE f xs s' = Inl e" by simp
    then show ?thesis by (rule Cons.IH)
  qed
qed

lemma py_int_error: "py_int v = Inl e \<Longrightarrow> conversion_error e"
  by (cases v) (auto simp: conversion_error_def)

lemma bindE_Inl_iff: "bindE r f = Inl e \<longleftrightarrow> r = Inl e \<or> (\<exists>v. r = Inr v \<and> f v = Inl e)"
  by (cases r) auto

lemma pixel_range_error:
  "pixel_range kern pixwidthx pixwidthy xmin ymin pixcountx pixcounty p = Inl e
    \<Longrightarrow> conversion_error e"
  by (auto simp: pixel_range_def Let_def bindE_Inl_iff dest: py_int_error)

lemma np_index_error: "np_index n i = Inl e \<Longrightarrow> \<exists>s. e = IndexError s"
  by (auto simp: np_index_def split: if_splits)

lemma dx2i_loop_error:
  "dx2i_loop xmin pixwidthx px hi21 n a b = Inl e \<Longrightarrow> \<exists>s. e = IndexError s"
  unfolding dx2i_loop_def
  by (erule foldE_error[rotated]) (auto simp: np_set_def bindE_Inl_iff dest: np_index_error)

lemma row_loop_error:
  "row_loop kern dx2i tm dy2v a b jpix img = Inl e \<Longrightarrow> \<exists>s. e = IndexError s"
  unfolding row_loop_def
  by (erule foldE_error[rotated])
    (auto simp: np_get_def image_add_def Let_def bindE_Inl_iff dest: np_index_error)

lemma add_particle_error:
  assumes "add_particle kern pixwidthx pixwidthy xmin ymin pixcountx pixcounty p img = Inl e"
  shows "conversion_error e \<or> (\<exists>s. e = IndexError s)"
proof -
  have rows: "\<exists>s. e = IndexError s"
    if "foldE (\<lambda>jpix im. row_loop kern dx2i tm (D jpix) a b jpix im) js img = Inl e"
    for dx2i tm D a b js
    using that by (rule foldE_error[rotated]) (rule row_loop_error)
  from assms show ?thesis
    by (auto simp: add_particle_def Let_def bindE_Inl_iff split: if_splits
        dest: pixel_range_error dx2i_loop_error rows)
qed

lemma interpolate2D_loop_error:
  assumes "foldE (add_particle kern pixwidthx pixwidthy xmin ymin pixcountx pixcounty) data img = Inl e"
  shows "conversion_error e \<or> (\<exists>s. e = IndexError s)"
  using assms by (rule foldE_error[rotated]) (rule add_particle_error)

lemma not_invalid_conversion: "conversion_error e \<Longrightarrow> \<not> invalid_parameter e"
  by (auto simp: conversion_error_def invalid_parameter_def)

lemma isclose_refl: "isclose a a \<longleftrightarrow> a \<noteq> NaN"
  by (cases a) auto





section \<open>One particle of interpolate2D\<close>

lemma py_int_rint: "py_int (np_rint (Fin q)) = Inr (rint q)"
  by simp

lemma foldE_unchanged:
  assumes "\<And>x s. x \<in> set xs \<Longrightarrow> f x s = Inr s"
  shows "foldE f xs s = Inr s"
  using assms by (induction xs) auto

lemma row_loop_empty: "imax \<le> imin \<Longrightarrow> row_loop kern dx2i tm dy2v imin imax jpix img = Inr img"
  by (simp add: row_loop_def py_range_empty)

lemma add_particle_skip:
  "weight p \<le> Fin 0
    \<Longrightarrow> add_particle kern pixwidthx pixwidthy xmin ymin pixcountx pixcounty p img = Inr img"
  by (simp add: add_particle_def)

lemma add_particle_empty:
  assumes pr: "pixel_range kern pixwidthx pixwidthy xmin ymin pixcountx pixcounty p
            = Inr (imin, imax, jmin, jmax)"
    and empty: "imax \<le> imin \<or> jmax \<le> jmin"
  shows "add_particle kern pixwidthx pixwidthy xmin ymin pixcountx pixcounty p img = Inr img"
proof (cases "weight p \<le> Fin 0")
  case True
  then show ?thesis by (rule add_particle_skip)
next
  case False
  let ?hi21 = "fsq (Fin 1 / part_h p)"
  from pixel_range_bounds[OF pr] have b: "0 \<le> imin" "imax \<le> pixcountx" by auto
  obtain dx2i where dx: "dx2i_loop xmin pixwidthx (part_x p) ?hi21 pixcountx imin imax = Inr dx2i"
    using dx2i_loop_eq[OF b] by blast
  have "foldE (\<lambda>jpix im. row_loop kern dx2i tm (D jpix) imin imax jpix im)
      (py_range jmin jmax) img = Inr img" for tm D
  proof (cases "imax \<le> imin")
    case True
    then show ?thesis by (intro foldE_unchanged row_loop_empty)
  next
    case False
    with empty have "jmax \<le> jmin" by simp
    then show ?thesis by (simp add: py_range_empty)
  qed
  with False pr dx show ?thesis
    by (simp add: add_particle_def Let_def)
qed

lemma add_particle_outcome:
  assumes sh: "shaped pixcounty pixcountx img" and pos: "0 \<le> pixcountx"
  shows "(\<exists>img'. add_particle kern pixwidthx pixwidthy xmin ymin pixcountx pixcounty p img = Inr img'
            \<and> shaped pixcounty pixcountx img')
       \<or> (\<exists>e. add_particle kern pixwidthx pixwidthy xmin ymin pixcountx pixcounty p img = Inl e
            \<and> conversion_error e)"
proof (cases "weight p \<le> Fin 0")
  case True
  with sh show ?thesis by (simp add: add_particle_skip)
next
  case False
  show ?thesis
  proof (cases "pixel_range kern pixwidthx pixwidthy xmin ymin pixcountx pixcounty p")
    case (Inl e)
    then have "conversion_error e" by (rule pixel_range_error)
    with False Inl show ?thesis by (simp add: add_particle_def Let_def)
  next
    case (Inr r)
    obtain imin imax jmin jmax where r: "r = (imin, imax, jmin, jmax)"
      by (cases r) auto
    from add_particle_eq[OF sh pos False Inr[unfolded r]] shaped_add_rect[OF sh]
    show ?thesis by blast
  qed
qed

lemma particles_loop_outcome:
  assumes "shaped pixcounty pixcountx img" and "0 \<le> pixcountx"
  shows "(\<exists>img'. foldE (add_particle kern pixwidthx pixwidthy xmin ymin pixcountx pixcounty) data img
              = Inr img' \<and> shaped pixcounty pixcountx img')
       \<or> (\<exists>e. foldE (add_particle kern pixwidthx pixwidthy xmin ymin pixcountx pixcounty) data img
              = Inl e \<and> conversion_error e)"
  using assms(1)
proof (induction data arbitrary: img)
  case Nil
  then show ?case by simp
next
  case (Cons p data)
  from add_particle_outcome[OF Cons.prems assms(2), of kern pixwidthx pixwidthy xmin ymin p]
  show ?case
  proof (elim disjE exE conjE)
    fix img'
    assume "add_particle kern pixwidthx pixwidthy xmin ymin pixcountx pixcounty p img = Inr img'"
      and "shaped pixcounty pixcountx img'"
    with Cons.IH[of img'] show ?thesis by simp
  next
    fix e
    assume "add_particle kern pixwidthx pixwidthy xmin ymin pixcountx pixcounty p img = Inl e"
      and "conversion_error e"
    then show ?thesis by simp
  qed
qed

lemma shaped_zeros2: "shaped rows cols (zeros2 rows cols)"
  by (simp add: shaped_def zeros2_def)

lemma interpolate2D_drop:
  assumes "\<And>img. add_particle kern pixwidthx pixwidthy xmin ymin pixcountx pixcounty p img = Inr img"
  shows "interpolate2D (ps @ p # qs) kern pixwidthx pixwidthy xmin ymin pixcountx pixcounty
       = interpolate2D (ps @ qs) kern pixwidthx pixwidthy xmin ymin pixcountx pixcounty"
proof -
  have "foldE (add_particle kern pixwidthx pixwidthy xmin ymin pixcountx pixcounty) (ps @ p # qs) img
      = foldE (add_particle kern pixwidthx pixwidthy xmin ymin pixcountx pixcounty) (ps @ qs) img"
    for img
    by (cases "foldE (add_particle kern pixwidthx pixwidthy xmin ymin pixcountx pixcounty) ps img")
      (simp_all add: foldE_append assms)
  then show ?thesis by (simp add: interpolate2D_def)
qed

lemma nth_add_rect:
  assumes "shaped rows cols img" "j < nat rows" "i < nat cols"
  shows "add_rect img jmin jmax imin imax F ! j ! i =
     (if jmin \<le> int j \<and> int j < jmax \<and> imin \<le> int i \<and> int i < imax
      then img ! j ! i + F (int j) (int i) else img ! j ! i)"
  using assms by (auto simp: shaped_def add_rect_def nth_upd_range)

lemma pixel_range_finite:
  assumes "(part_x p - radkernel kern * part_h p - xmin) / pixwidthx = Fin xlo"
    "(part_x p + radkernel kern * part_h p - xmin) / pixwidthx = Fin xhi"
    "(part_y p - radkernel kern * part_h p - ymin) / pixwidthy = Fin ylo"
    "(part_y p + radkernel kern * part_h p - ymin) / pixwidthy = Fin yhi"
  shows "pixel_range kern pixwidthx pixwidthy xmin ymin pixcountx pixcounty p
      = Inr (spec_min xlo, spec_max pixcountx xhi, spec_min ylo, spec_max pixcounty yhi)"
  using assms by (auto simp: pixel_range_def Let_def spec_min_def spec_max_def)

section \<open>Validation of the arguments\<close>

text \<open>
  Claim C7. \<^verbatim>\<open>interpolate2D\<close> raises one of its invalid-parameter errors if and only
  if a pixel width or a pixel count is not positive, each of the four on its own, and
  then it raises before it reads any particle: the outcome is that of the call on an
  empty frame, an exception and no image.
\<close>

theorem interpolate2D_invalid_parameter:
  "((\<exists>e. interpolate2D data kern pixwidthx pixwidthy xmin ymin pixcountx pixcounty = Inl e
        \<and> invalid_parameter e)
     \<longleftrightarrow> (pixwidthx \<le> Fin 0 \<or> pixwidthy \<le> Fin 0 \<or> pixcountx \<le> 0 \<or> pixcounty \<le> 0))
   \<and> (pixwidthx \<le> Fin 0 \<or> pixwidthy \<le> Fin 0 \<or> pixcountx \<le> 0 \<or> pixcounty \<le> 0
      \<longrightarrow> interpolate2D data kern pixwidthx pixwidthy xmin ymin pixcountx pixcounty
          = interpolate2D [] kern pixwidthx pixwidthy xmin ymin pixcountx pixcounty)"
proof -
  let ?bad = "pixwidthx \<le> Fin 0 \<or> pixwidthy \<le> Fin 0 \<or> pixcountx \<le> 0 \<or> pixcounty \<le> 0"
  let ?r = "interpolate2D data kern pixwidthx pixwidthy xmin ymin pixcountx pixcounty"
  have raised: "\<exists>e. ?r = Inl e \<and> invalid_parameter e" if ?bad
    using that by (auto simp: interpolate2D_def invalid_parameter_def)
  have eager: "?r = interpolate2D [] kern pixwidthx pixwidthy xmin ymin pixcountx pixcounty" if ?bad
    using that by (auto simp: interpolate2D_def)
  have only: ?bad if "?r = Inl e" "invalid_parameter e" for e
  proof (rule ccontr)
    assume nb: "\<not> ?bad"
    show False
    proof (cases "ndims kern = 2")
      case False
      with nb that show False
        by (auto simp: interpolate2D_def invalid_parameter_def)
    next
      case True
      with nb that(1)
      have "foldE (add_particle kern pixwidthx pixwidthy xmin ymin pixcountx pixcounty) data
              (zeros2 pixcounty pixcountx) = Inl e"
        by (auto simp: interpolate2D_def)
      then have "conversion_error e \<or> (\<exists>s. e = IndexError s)"
        by (rule interpolate2D_loop_error)
      with that(2) show False
        by (auto simp: conversion_error_def invalid_parameter_def)
    qed
  qed
  from raised eager only show ?thesis by blast
qed

theorem interpolate2D_invalid_parameter_witness:
  "Fin 0 \<le> Fin 0
   \<and> (\<exists>e. interpolate2D [good] tent (Fin 0) (Fin 1) (Fin 0) (Fin 0) 1 1 = Inl e
        \<and> invalid_parameter e)
   \<and> interpolate2D [good] tent (Fin 0) (Fin 1) (Fin 0) (Fin 0) 1 1
      = interpolate2D [] tent (Fin 0) (Fin 1) (Fin 0) (Fin 0) 1 1"
proof -
  have h: "Fin 0 \<le> Fin 0" by simp
  from interpolate2D_invalid_parameter
    [of "[good]" tent "Fin 0" "Fin 1" "Fin 0" "Fin 0" 1 1] h
  show ?thesis by blast
qed

text \<open>
  Claim C8. \<^verbatim>\<open>interpolate2DCross\<close> raises an invalid-parameter error when the two
  end points coincide and when \<^verbatim>\<open>pixcount\<close> is not positive, in both cases before it
  reads any particle: the outcome is that of the call on an empty frame, an exception
  and no output array. (End points coincide when their coordinates are equal floats,
  so neither is \<open>NaN\<close>.)
\<close>

theorem interpolate2DCross_invalid_parameter:
  "(x1 = x2 \<and> y1 = y2 \<and> x1 \<noteq> NaN \<and> y1 \<noteq> NaN
      \<longrightarrow> interpolate2DCross data kern x1 y1 x2 y2 pixcount
          = Inl (ValueError ''Zero length cross section!''))
   \<and> (pixcount \<le> 0
      \<longrightarrow> (\<exists>e. interpolate2DCross data kern x1 y1 x2 y2 pixcount = Inl e
              \<and> invalid_parameter e))
   \<and> ((x1 = x2 \<and> y1 = y2 \<and> x1 \<noteq> NaN \<and> y1 \<noteq> NaN) \<or> pixcount \<le> 0
      \<longrightarrow> interpolate2DCross data kern x1 y1 x2 y2 pixcount
          = interpolate2DCross [] kern x1 y1 x2 y2 pixcount)"
  by (auto simp: interpolate2DCross_def invalid_parameter_def isclose_refl)

theorem interpolate2DCross_invalid_parameter_witness:
  "interpolate2DCross [good] tent (Fin 1) (Fin 2) (Fin 1) (Fin 2) 4
      = Inl (ValueError ''Zero length cross section!'')
   \<and> (\<exists>e. interpolate2DCross [good] tent (Fin 0) (Fin 0) (Fin 2) (Fin 0) 0 = Inl e
        \<and> invalid_parameter e)
   \<and> interpolate2DCross [good] tent (Fin 0) (Fin 0) (Fin 2) (Fin 0) 0
      = interpolate2DCross [] tent (Fin 0) (Fin 0) (Fin 2) (Fin 0) 0"
proof -
  have same: "Fin 1 = Fin 1 \<and> Fin 2 = Fin 2 \<and> Fin 1 \<noteq> NaN \<and> Fin 2 \<noteq> NaN"
    and none: "(0::int) \<le> 0"
    by simp_all
  from same none
    interpolate2DCross_invalid_parameter
      [where ?x1.0 = "Fin 1" and ?x2.0 = "Fin 1" and ?y1.0 = "Fin 2" and ?y2.0 = "Fin 2"
        and data = "[good]" and kern = tent and pixcount = 4]
    interpolate2DCross_invalid_parameter
      [where ?x1.0 = "Fin 0" and ?x2.0 = "Fin 2" and ?y1.0 = "Fin 0" and ?y2.0 = "Fin 0"
        and data = "[good]" and kern = tent and pixcount = 0]
  show ?thesis by blast
qed




section \<open>Particles that are skipped or write nothing\<close>

lemma tent_simps [simp]: "ndims tent = 2" "radkernel tent = Fin 1" "w tent = tent_w"
  by (simp_all add: tent_def)

lemma py_range_0_1: "py_range 0 1 = [0]" "py_range 0 0 = []"
  by (simp_all add: py_range_def upto_rec1)

lemma weight_negative: "weight negative = Fin 1"
  by (simp add: weight_def negative_def fsq_def)


lemma range_negative:
  "pixel_range tent (Fin 1) (Fin 1) (Fin 0) (Fin 0) 1 1 negative = Inr (0, 1, 0, 1)"
  by (simp add: pixel_range_def negative_def minus_fl_def rint_def Let_def)


lemma image_negative:
  "interpolate2D [negative] tent (Fin 1) (Fin 1) (Fin 0) (Fin 0) 1 1 = Inr [[Fin 1]]"
  apply (simp add: interpolate2D_def zeros2_def add_particle_def weight_negative range_negative
      Let_def dx2i_loop_def py_range_0_1 np_set_def np_index_def row_loop_def np_get_def
      image_add_def)
  apply (simp add: dx2_def dy2_def negative_def of_pyint_def fsq_def minus_fl_def tent_w_def)
  done









section \<open>The pixels a particle writes\<close>






lemma dx2i_loop_length:
  assumes "0 \<le> a" "b \<le> n"
  shows "\<exists>dx2i. dx2i_loop xmin pixwidthx px hi21 n a b = Inr dx2i \<and> length dx2i = nat n"
  using dx2i_loop_eq[OF assms] by simp

text \<open>
  Claim C10. Every index of the accumulation is in bounds, whatever the particle and
  the kernel are: the column indices of the loops of lines 89 and 99 lie in
  \<open>[0, pixcountx)\<close>, where the buffer \<^verbatim>\<open>dx2i\<close> has exactly \<open>pixcountx\<close> entries, the
  row indices of the loop of line 93 lie in \<open>[0, pixcounty)\<close>, no call raises
  \<^verbatim>\<open>IndexError\<close>, and a returned image has the shape \<open>(pixcounty, pixcountx)\<close>.
\<close>

theorem interpolate2D_indices_in_bounds:
  "(pixel_range kern pixwidthx pixwidthy xmin ymin pixcountx pixcounty p
        = Inr (ipixmin, ipixmax, jpixmin, jpixmax)
      \<longrightarrow> (\<forall>ipix \<in> set (py_range ipixmin ipixmax). 0 \<le> ipix \<and> ipix < pixcountx)
        \<and> (\<forall>jpix \<in> set (py_range jpixmin jpixmax). 0 \<le> jpix \<and> jpix < pixcounty)
        \<and> (\<exists>dx2i. dx2i_loop xmin pixwidthx (part_x p) hi21 pixcountx ipixmin ipixmax = Inr dx2i
              \<and> length dx2i = nat pixcountx))
   \<and> interpolate2D data kern pixwidthx pixwidthy xmin ymin pixcountx pixcounty
        \<noteq> Inl (IndexError s)
   \<and> (interpolate2D data kern pixwidthx pixwidthy xmin ymin pixcountx pixcounty = Inr img
      \<longrightarrow> shaped pixcounty pixcountx img)"
proof -
  have ranges: "(\<forall>ipix \<in> set (py_range ipixmin ipixmax). 0 \<le> ipix \<and> ipix < pixcountx)
        \<and> (\<forall>jpix \<in> set (py_range jpixmin jpixmax). 0 \<le> jpix \<and> jpix < pixcounty)
        \<and> (\<exists>dx2i. dx2i_loop xmin pixwidthx (part_x p) hi21 pixcountx ipixmin ipixmax = Inr dx2i
              \<and> length dx2i = nat pixcountx)"
    if pr: "pixel_range kern pixwidthx pixwidthy xmin ymin pixcountx pixcounty p
        = Inr (ipixmin, ipixmax, jpixmin, jpixmax)"
  proof -
    from pixel_range_bounds[OF pr]
    have b: "0 \<le> ipixmin" "ipixmax \<le> pixcountx" "0 \<le> jpixmin" "jpixmax \<le> pixcounty"
      by auto
    from b dx2i_loop_length[OF b(1,2)] show ?thesis
      by (auto simp: set_py_range)
  qed
  let ?r = "interpolate2D data kern pixwidthx pixwidthy xmin ymin pixcountx pixcounty"
  have run: "?r \<noteq> Inl (IndexError s) \<and> (?r = Inr img \<longrightarrow> shaped pixcounty pixcountx img)"
  proof (cases "pixwidthx \<le> Fin 0 \<or> pixwidthy \<le> Fin 0 \<or> pixcountx \<le> 0 \<or> pixcounty \<le> 0
      \<or> ndims kern \<noteq> 2")
    case True
    then show ?thesis by (auto simp: interpolate2D_def)
  next
    case False
    then have r: "?r = foldE (add_particle kern pixwidthx pixwidthy xmin ymin pixcountx pixcounty)
        data (zeros2 pixcounty pixcountx)"
      by (simp add: interpolate2D_def)
    from False have pos: "0 \<le> pixcountx" by simp
    from particles_loop_outcome[OF shaped_zeros2[of pixcounty pixcountx] pos,
        where kern = kern and pixwidthx = pixwidthx and pixwidthy = pixwidthy and xmin = xmin
          and ymin = ymin and data = data]
    show ?thesis
      unfolding r by (auto simp: conversion_error_def)
  qed
  from ranges run show ?thesis by blast
qed

lemma py_range_0_1_set: "set (py_range 0 1) = {0}"
  by (auto simp: set_py_range)

theorem interpolate2D_indices_in_bounds_witness:
  "pixel_range tent (Fin 1) (Fin 1) (Fin 0) (Fin 0) 1 1 negative = Inr (0, 1, 0, 1)
   \<and> 0 \<in> set (py_range 0 1) \<and> (0::int) \<le> 0 \<and> (0::int) < 1
   \<and> interpolate2D [negative] tent (Fin 1) (Fin 1) (Fin 0) (Fin 0) 1 1
        \<noteq> Inl (IndexError ''index is out of bounds'')
   \<and> shaped 1 1 [[Fin 1]]"
  using interpolate2D_indices_in_bounds
    [where kern = tent and pixwidthx = "Fin 1" and pixwidthy = "Fin 1" and xmin = "Fin 0"
      and ymin = "Fin 0" and pixcountx = 1 and pixcounty = 1 and p = negative
      and ipixmin = 0 and ipixmax = 1 and jpixmin = 0 and jpixmax = 1
      and data = "[negative]" and s = "''index is out of bounds''" and img = "[[Fin 1]]"]
    range_negative image_negative
  by (simp add: py_range_0_1_set)

section \<open>Locality and order in interpolate2D\<close>

text \<open>
  A particle that lies outside the grid by more than its support radius, on any of the
  four sides, has an empty clamped range and leaves the image as it is; removing it
  does not change the outcome of the call.
\<close>

lemma rint_bounds: "\<lfloor>q\<rfloor> \<le> rint q \<and> rint q \<le> \<lfloor>q\<rfloor> + 1"
  by (simp add: rint_def Let_def)

lemma rint_negative: "q < 0 \<Longrightarrow> rint q \<le> 0"
proof -
  assume "q < 0"
  then have "\<lfloor>q\<rfloor> < 0" by (simp add: floor_less_iff)
  with rint_bounds[of q] show ?thesis by linarith
qed

lemma rint_beyond: "of_int n < q \<Longrightarrow> n \<le> rint q"
proof -
  assume "of_int n < q"
  then have "n \<le> \<lfloor>q\<rfloor>" by (simp add: le_floor_iff)
  with rint_bounds[of q] show ?thesis by linarith
qed

lemma particle_outside_grid:
  assumes fin: "part_x p = Fin x" "part_y p = Fin y" "radkernel kern * part_h p = Fin r"
      "xmin = Fin x0" "ymin = Fin y0" "pixwidthx = Fin wx" "pixwidthy = Fin wy"
    and pos: "0 < wx" "0 < wy"
    and out: "x + r < x0 \<or> x0 + of_int pixcountx * wx < x - r
            \<or> y + r < y0 \<or> y0 + of_int pixcounty * wy < y - r"
  shows "add_particle kern pixwidthx pixwidthy xmin ymin pixcountx pixcounty p img = Inr img"
proof -
  let ?xlo = "(x - r - x0) / wx" and ?xhi = "(x + r - x0) / wx"
  let ?ylo = "(y - r - y0) / wy" and ?yhi = "(y + r - y0) / wy"
  have q: "(part_x p - radkernel kern * part_h p - xmin) / pixwidthx = Fin ?xlo"
    "(part_x p + radkernel kern * part_h p - xmin) / pixwidthx = Fin ?xhi"
    "(part_y p - radkernel kern * part_h p - ymin) / pixwidthy = Fin ?ylo"
    "(part_y p + radkernel kern * part_h p - ymin) / pixwidthy = Fin ?yhi"
    using fin pos by (simp_all add: minus_fl_def)
  have pr: "pixel_range kern pixwidthx pixwidthy xmin ymin pixcountx pixcounty p
      = Inr (spec_min ?xlo, spec_max pixcountx ?xhi, spec_min ?ylo, spec_max pixcounty ?yhi)"
    by (rule pixel_range_finite[OF q])
  have left: "spec_max n hi \<le> spec_min lo" if "hi < 0" for n hi lo
    using rint_negative[OF that] by (simp add: spec_min_def spec_max_def)
  have right: "spec_max n hi \<le> spec_min lo" if "of_int n < lo" for n hi lo
    using rint_beyond[OF that] by (simp add: spec_min_def spec_max_def)
  from out have "spec_max pixcountx ?xhi \<le> spec_min ?xlo \<or> spec_max pixcounty ?yhi \<le> spec_min ?ylo"
  proof (elim disjE)
    assume "x + r < x0"
    with pos have "?xhi < 0" by (simp add: divide_less_0_iff)
    then show ?thesis by (simp add: left)
  next
    assume "x0 + of_int pixcountx * wx < x - r"
    with pos have "of_int pixcountx < ?xlo" by (simp add: less_divide_eq algebra_simps)
    then show ?thesis by (simp add: right)
  next
    assume "y + r < y0"
    with pos have "?yhi < 0" by (simp add: divide_less_0_iff)
    then show ?thesis by (simp add: left)
  next
    assume "y0 + of_int pixcounty * wy < y - r"
    with pos have "of_int pixcounty < ?ylo" by (simp add: less_divide_eq algebra_simps)
    then show ?thesis by (simp add: right)
  qed
  with pr show ?thesis by (rule add_particle_empty)
qed

lemma interpolate2D_locality:
  assumes "part_x p = Fin x" "part_y p = Fin y" "radkernel kern * part_h p = Fin r"
      "xmin = Fin x0" "ymin = Fin y0" "pixwidthx = Fin wx" "pixwidthy = Fin wy"
    and "0 < wx" "0 < wy"
    and "x + r < x0 \<or> x0 + of_int pixcountx * wx < x - r
            \<or> y + r < y0 \<or> y0 + of_int pixcounty * wy < y - r"
  shows "interpolate2D (ps @ p # qs) kern pixwidthx pixwidthy xmin ymin pixcountx pixcounty
       = interpolate2D (ps @ qs) kern pixwidthx pixwidthy xmin ymin pixcountx pixcounty"
  by (rule interpolate2D_drop) (rule particle_outside_grid[OF assms])

text \<open>
  Addition of the modelled numbers is commutative and associative, so two rectangles
  can be added in either order, and a call of \<^verbatim>\<open>interpolate2D\<close> that returns an image
  returns the same image for every reordering of the particles.
\<close>

lemma fl_add_commute: "a + b = b + (a :: fl)"
  by (cases a; cases b) simp_all

lemma fl_add_assoc: "(a + b) + c = a + (b + (c :: fl))"
  by (cases a; cases b; cases c) simp_all

lemma fl_add_right_commute: "(a + b) + c = (a + c) + (b :: fl)"
  by (metis fl_add_assoc fl_add_commute)

lemma add_rect_commute:
  assumes sh: "shaped rows cols img"
  shows "add_rect (add_rect img j1 j2 i1 i2 F) j3 j4 i3 i4 G
       = add_rect (add_rect img j3 j4 i3 i4 G) j1 j2 i1 i2 F"
    (is "?l = ?r")
proof (rule nth_equalityI)
  have shl: "shaped rows cols ?l" and shr: "shaped rows cols ?r"
    using sh by (simp_all add: shaped_add_rect)
  then show "length ?l = length ?r" by (simp add: shaped_def)
  fix j assume "j < length ?l"
  then have j: "j < nat rows" using shl by (simp add: shaped_def)
  show "?l ! j = ?r ! j"
  proof (rule nth_equalityI)
    have "length (?l ! j) = nat cols" "length (?r ! j) = nat cols"
      using shl shr j by (simp_all add: shaped_def)
    then show "length (?l ! j) = length (?r ! j)" by simp
    fix i assume "i < length (?l ! j)"
    then have i: "i < nat cols" using \<open>length (?l ! j) = nat cols\<close> by simp
    have shF: "shaped rows cols (add_rect img j1 j2 i1 i2 F)"
      and shG: "shaped rows cols (add_rect img j3 j4 i3 i4 G)"
      using sh by (simp_all add: shaped_add_rect)
    show "?l ! j ! i = ?r ! j ! i"
      by (simp add: nth_add_rect[OF shF j i] nth_add_rect[OF shG j i] nth_add_rect[OF sh j i]
          fl_add_right_commute)
  qed
qed

lemma add_particle_forms:
  assumes pos: "0 \<le> pixcountx"
  shows "(\<forall>img. add_particle kern pixwidthx pixwidthy xmin ymin pixcountx pixcounty p img = Inr img)
    \<or> (\<exists>e. \<forall>img. add_particle kern pixwidthx pixwidthy xmin ymin pixcountx pixcounty p img = Inl e)
    \<or> (\<exists>jmin jmax imin imax. \<forall>img. shaped pixcounty pixcountx img \<longrightarrow>
          add_particle kern pixwidthx pixwidthy xmin ymin pixcountx pixcounty p img
            = Inr (add_rect img jmin jmax imin imax (contrib kern pixwidthx pixwidthy xmin ymin p)))"
proof (cases "weight p \<le> Fin 0")
  case True
  then show ?thesis by (simp add: add_particle_skip)
next
  case False
  show ?thesis
  proof (cases "pixel_range kern pixwidthx pixwidthy xmin ymin pixcountx pixcounty p")
    case (Inl e)
    with False show ?thesis by (simp add: add_particle_def Let_def)
  next
    case (Inr r)
    obtain imin imax jmin jmax where r: "r = (imin, imax, jmin, jmax)"
      by (cases r) auto
    have "add_particle kern pixwidthx pixwidthy xmin ymin pixcountx pixcounty p img
            = Inr (add_rect img jmin jmax imin imax (contrib kern pixwidthx pixwidthy xmin ymin p))"
      if "shaped pixcounty pixcountx img" for img
      using that pos False Inr[unfolded r] by (rule add_particle_eq)
    then show ?thesis by blast
  qed
qed

lemma add_particle_swap:
  assumes sh: "shaped pixcounty pixcountx img" and pos: "0 \<le> pixcountx"
    and p: "add_particle kern pixwidthx pixwidthy xmin ymin pixcountx pixcounty p img = Inr img1"
    and q: "add_particle kern pixwidthx pixwidthy xmin ymin pixcountx pixcounty q img1 = Inr img2"
  shows "\<exists>img1'. add_particle kern pixwidthx pixwidthy xmin ymin pixcountx pixcounty q img = Inr img1'
      \<and> add_particle kern pixwidthx pixwidthy xmin ymin pixcountx pixcounty p img1' = Inr img2"
proof -
  let ?A = "add_particle kern pixwidthx pixwidthy xmin ymin pixcountx pixcounty"
  have sh1: "shaped pixcounty pixcountx img1"
    using add_particle_outcome[OF sh pos, of kern pixwidthx pixwidthy xmin ymin p] p by auto
  from add_particle_forms[OF pos, of kern pixwidthx pixwidthy xmin ymin pixcounty p] p
  consider (skip) "\<forall>im. ?A p im = Inr im"
    | (rect) jmin jmax imin imax where "\<forall>im. shaped pixcounty pixcountx im \<longrightarrow>
        ?A p im = Inr (add_rect im jmin jmax imin imax (contrib kern pixwidthx pixwidthy xmin ymin p))"
    by auto
  then show ?thesis
  proof cases
    case skip
    with p have "img1 = img" by simp
    with q skip show ?thesis by simp
  next
    case rect
    let ?P = "\<lambda>im. add_rect im jmin jmax imin imax (contrib kern pixwidthx pixwidthy xmin ymin p)"
    from rect sh p have i1: "img1 = ?P img" by simp
    from add_particle_forms[OF pos, of kern pixwidthx pixwidthy xmin ymin pixcounty q] q
    consider (qskip) "\<forall>im. ?A q im = Inr im"
      | (qrect) j3 j4 i3 i4 where "\<forall>im. shaped pixcounty pixcountx im \<longrightarrow>
          ?A q im = Inr (add_rect im j3 j4 i3 i4 (contrib kern pixwidthx pixwidthy xmin ymin q))"
      by auto
    then show ?thesis
    proof cases
      case qskip
      with q have "img2 = img1" by simp
      with qskip p show ?thesis by simp
    next
      case qrect
      let ?Q = "\<lambda>im. add_rect im j3 j4 i3 i4 (contrib kern pixwidthx pixwidthy xmin ymin q)"
      from qrect sh1 q have i2: "img2 = ?Q (?P img)" by (simp add: i1)
      have "?A q img = Inr (?Q img)" using qrect sh by simp
      moreover have "shaped pixcounty pixcountx (?Q img)" using sh by (rule shaped_add_rect)
      then have "?A p (?Q img) = Inr (?P (?Q img))" using rect by simp
      moreover have "?P (?Q img) = ?Q (?P img)" using sh by (rule add_rect_commute)
      ultimately show ?thesis using i2 by simp
    qed
  qed
qed

lemma particles_loop_reordered:
  assumes "reordered xs ys" and pos: "0 \<le> pixcountx"
  shows "shaped pixcounty pixcountx img
    \<Longrightarrow> foldE (add_particle kern pixwidthx pixwidthy xmin ymin pixcountx pixcounty) xs img = Inr out
    \<Longrightarrow> foldE (add_particle kern pixwidthx pixwidthy xmin ymin pixcountx pixcounty) ys img = Inr out"
  using assms(1)
proof (induction arbitrary: img out rule: reordered.induct)
  case (same xs)
  then show ?case by simp
next
  case (swap x y xs)
  let ?A = "add_particle kern pixwidthx pixwidthy xmin ymin pixcountx pixcounty"
  from swap.prems(2) obtain img1 where x: "?A x img = Inr img1"
    by (cases "?A x img") auto
  with swap.prems(2) obtain img2 where y: "?A y img1 = Inr img2"
    by (cases "?A y img1") auto
  from swap.prems(2) x y have rest: "foldE ?A xs img2 = Inr out" by simp
  from add_particle_swap[OF swap.prems(1) pos x y] rest show ?case by auto
next
  case (under xs ys z)
  let ?A = "add_particle kern pixwidthx pixwidthy xmin ymin pixcountx pixcounty"
  from under.prems(2) obtain img1 where z: "?A z img = Inr img1"
    by (cases "?A z img") auto
  then have "shaped pixcounty pixcountx img1"
    using add_particle_outcome[OF under.prems(1) pos, of kern pixwidthx pixwidthy xmin ymin z]
    by auto
  moreover from under.prems(2) z have "foldE ?A xs img1 = Inr out" by simp
  ultimately have "foldE ?A ys img1 = Inr out" by (rule under.IH)
  with z show ?case by simp
next
  case (chain xs ys zs)
  then show ?case by blast
qed

lemma interpolate2D_reordered:
  assumes "reordered data data'"
    and "interpolate2D data kern pixwidthx pixwidthy xmin ymin pixcountx pixcounty = Inr img"
  shows "interpolate2D data' kern pixwidthx pixwidthy xmin ymin pixcountx pixcounty = Inr img"
proof -
  let ?A = "add_particle kern pixwidthx pixwidthy xmin ymin pixcountx pixcounty"
  from assms(2) have ok: "\<not> pixwidthx \<le> Fin 0" "\<not> pixwidthy \<le> Fin 0" "0 < pixcountx"
      "0 < pixcounty" "ndims kern = 2"
    and run: "foldE ?A data (zeros2 pixcounty pixcountx) = Inr img"
    by (auto simp: interpolate2D_def split: if_splits)
  from ok have pos: "0 \<le> pixcountx" by simp
  from particles_loop_reordered[OF assms(1) pos shaped_zeros2 run] ok
  show ?thesis by (simp add: interpolate2D_def)
qed

section \<open>The cross-section on the example data\<close>

text \<open>
  The line runs from \<open>(0, 0)\<close> to \<open>(2, 0)\<close> and has one pixel.
\<close>

lemma line_x_axis:
  "gradient_of (Fin 0) (Fin 0) (Fin 2) (Fin 0) = Fin 0"
  "xlength_of (Fin 0) (Fin 0) (Fin 2) (Fin 0) = Fin 2"
  by (simp_all add: gradient_of_def xlength_of_def fsq_def minus_fl_def)

lemma weight_filter_examples:
  "filter_weight good" "\<not> filter_weight still" "\<not> filter_weight far_still"
  by (simp_all add: filter_weight_def term_of_def good_def still_def far_still_def fsq_def)

lemma term_examples: "term_of good = Fin 3" "term_of still = Fin 0" "term_of far_still = Fin 0"
  by (simp_all add: term_of_def good_def still_def far_still_def fsq_def)

lemma bb_good: "bb_of (Fin 0) (Fin 0) good = Fin (- 2)"
  by (simp add: bb_of_def good_def minus_fl_def)

lemma det_good: "det_of tent (Fin 0) (Fin 0) good = Fin 4"
  by (simp add: det_of_def bb_good cc_of_def fsq_def minus_fl_def) (simp add: good_def)

lemma det_far_still: "det_of tent (Fin 0) (Fin 0) far_still = Fin (- 96)"
  by (simp add: det_of_def bb_of_def cc_of_def far_still_def fsq_def minus_fl_def)

lemma det_filter_good: "filter_det tent (Fin 0) (Fin 0) good"
  by (simp add: filter_det_def det_good)

lemma ends_good:
  "xstart_of tent (Fin 0) (Fin 0) (Fin 0) (Fin 2) good = Fin 0"
  "xend_of tent (Fin 0) (Fin 0) (Fin 0) (Fin 2) good = Fin 2"
  by (simp_all add: xstart_of_def xend_of_def det_good bb_good Let_def fsq_def minus_fl_def
      clip_def clip_lower_def clip_upper_def)

lemma pixels_good:
  "ipix_of (Fin 2) 1 (rdist (Fin 0) (Fin 0) (Fin 0) (Fin 0) (Fin 0)) = Fin 0"
  "ipix_of (Fin 2) 1 (rdist (Fin 0) (Fin 0) (Fin 0) (Fin 0) (Fin 2)) = Fin 1"
  by (simp_all add: ipix_of_def rdist_def fsq_def minus_fl_def rint_def of_pyint_def clip_def
      clip_lower_def clip_upper_def)

lemmas cross_setup =
  interpolate2DCross_def Let_def line_x_axis of_pyint_def minus_fl_def weight_filter_examples
  det_filter_good nonzero_def ends_good pixels_good cross_body_def loc_def term_examples

lemma cross_good_alone:
  "interpolate2DCross [good] tent (Fin 0) (Fin 0) (Fin 2) (Fin 0) 1 = Inr [Fin 3]"
  apply (simp add: cross_setup)
  apply (simp add: good_def py_range_def fsq_def tent_w_def slice_add_def slice_bound_def
      minus_fl_def)
  done

lemma cross_still_first:
  "interpolate2DCross [still, good] tent (Fin 0) (Fin 0) (Fin 2) (Fin 0) 1 = Inl (KeyError 0)"
  by (simp add: cross_setup)

lemma cross_still_last:
  "interpolate2DCross [good, still] tent (Fin 0) (Fin 0) (Fin 2) (Fin 0) 1 = Inr [Fin 3]"
  apply (simp add: cross_setup)
  apply (simp add: good_def py_range_def fsq_def tent_w_def slice_add_def slice_bound_def
      minus_fl_def)
  done

lemma cross_far_still_first:
  "interpolate2DCross [far_still, good] tent (Fin 0) (Fin 0) (Fin 2) (Fin 0) 1 = Inl (KeyError 0)"
  by (simp add: cross_setup)

text \<open>
  Claim C1: every particle that passes both filters has its term times the kernel
  value added to the pixels of its range, computed from its own row. The code does
  not do so here. \<open>good\<close> passes both filters and alone it yields the output
  \<open>[3]\<close>; preceded by a row that the weight filter removes, its position among the
  remaining rows is 0 while its label is 1, the loop looks up label 0 in \<open>ipixmin\<close>,
  which holds label 1 only, and the call raises \<^verbatim>\<open>KeyError\<close> instead of adding
  anything.
\<close>

theorem surviving_particle_not_accumulated:
  "filter_weight good \<and> filter_det tent (Fin 0) (Fin 0) good
   \<and> interpolate2DCross [good] tent (Fin 0) (Fin 0) (Fin 2) (Fin 0) 1 = Inr [Fin 3]
   \<and> \<not> filter_weight still
   \<and> interpolate2DCross [still, good] tent (Fin 0) (Fin 0) (Fin 2) (Fin 0) 1
      = Inl (KeyError 0)"
  by (simp add: weight_filter_examples det_filter_good cross_good_alone cross_still_first)

text \<open>
  Claim C3: a particle whose smoothing circle does not meet the line contributes
  nothing, the outcome being that of the call without it. The code breaks this here:
  the circle of \<open>far_still\<close> is five units from the line (its discriminant is
  negative), without it the output is \<open>[3]\<close>, and with it in front the call raises
  \<^verbatim>\<open>KeyError\<close>.
\<close>

theorem distant_particle_changes_outcome:
  "det_of tent (Fin 0) (Fin 0) far_still = Fin (- 96)
   \<and> interpolate2DCross [far_still, good] tent (Fin 0) (Fin 0) (Fin 2) (Fin 0) 1
      = Inl (KeyError 0)
   \<and> interpolate2DCross [good] tent (Fin 0) (Fin 0) (Fin 2) (Fin 0) 1 = Inr [Fin 3]"
  by (simp add: det_far_still cross_far_still_first cross_good_alone)

text \<open>
  Claim C5: permuting the particles leaves the output unchanged. The code breaks this
  for the cross-section: the same two particles give \<^verbatim>\<open>KeyError\<close> in one order and
  the output \<open>[3]\<close> in the other.
\<close>

theorem cross_section_depends_on_order:
  "interpolate2DCross [still, good] tent (Fin 0) (Fin 0) (Fin 2) (Fin 0) 1 = Inl (KeyError 0)
   \<and> interpolate2DCross [good, still] tent (Fin 0) (Fin 0) (Fin 2) (Fin 0) 1 = Inr [Fin 3]"
  by (simp add: cross_still_first cross_still_last)

end
